theory Spec2Isabelle
  imports Main "HOL-Library.Multiset"
begin

section \<open>NuitkaGUI: the import extractor of \<open>src/utils/dependence_utils.py\<close>\<close>

text \<open>
  \<open>DependenceUtils.get_import_name_from_py_file\<close> reads a Python file, parses it with
  \<open>ast.parse\<close>, walks the tree with \<open>ast.walk\<close> and returns the de-duplicated first
  segments of the imported names. The file system, the parser of the Python standard
  library, the standard output and the iteration order of a Python \<open>set\<close> are not code of
  the repository: they are parameters of the model. What the function does with their answers is modelled
  statement by statement.
\<close>

subsection \<open>Exceptions and printed lines\<close>

text \<open>
  An exception is an instance of Python's \<open>Exception\<close>: its class, as far as the
  \<open>except\<close> clauses of the function tell classes apart, and the text \<open>str(e)\<close>.
  \<open>open\<close>, \<open>read\<close>, \<open>ast.parse\<close>, \<open>print\<close>, \<open>str.split\<close> and list indexing raise nothing
  else.
\<close>

datatype exc_class = SyntaxError | OSError | IndexError | UnicodeEncodeError | OtherException

datatype py_exception = Raised (exc_class: exc_class) (str: string)

type_synonym path = string

text \<open>
  The four \<open>print\<close> calls of the function, each with the values its f-string formats:
  \<^item> \<open>[DependenceUtils] <read failed>: {file_path} -> {e}\<close>
  \<^item> \<open>[DependenceUtils] <skipping file with syntax error>: {file_path}\<close>
  \<^item> \<open>  -> {e}\<close>
  \<^item> \<open>[DependenceUtils] <AST parse exception>: {file_path} -> {e}\<close>
\<close>

datatype log_line =
    ReadFailed path string
  | SyntaxErrorSkipped path
  | ErrorDetail string
  | AstParseFailed path string

text \<open>
  \<open>print(line)\<close> writes to \<open>sys.stdout\<close>. When \<open>sys.stdout\<close> is \<open>None\<close> (a program started
  without a console) it returns and writes nothing. Otherwise the stream takes the line,
  or raises: \<open>UnicodeEncodeError\<close> when its encoding has no code for a character of the
  line, \<open>OSError\<close> when the write fails. \<open>out\<close> is what was written before.
\<close>

datatype stdout = NoStdout | Stream "log_line \<Rightarrow> py_exception option"

fun print_line :: "stdout \<Rightarrow> log_line \<Rightarrow> log_line list \<Rightarrow> py_exception + log_line list" where
  "print_line NoStdout line out = Inr out"
| "print_line (Stream write) line out =
     (case write line of
        None \<Rightarrow> Inr (out @ [line])
      | Some e \<Rightarrow> Inl e)"

subsection \<open>The syntax tree\<close>

text \<open>
  The nodes of \<open>ast\<close> that the function tells apart: \<open>ast.Import(names)\<close>,
  \<open>ast.ImportFrom(module, names, level)\<close>, where \<open>module\<close> is \<open>None\<close> for
  \<open>from . import x\<close>, and the \<open>ast.alias(name, asname)\<close> nodes below them. Every other
  node (\<open>Module\<close>, \<open>FunctionDef\<close>, \<open>If\<close>, \<open>Expr\<close>, ...) is \<open>Other\<close> with its child nodes.
\<close>

datatype ast_alias = Alias (name: string) (asname: "string option")

datatype node =
    Import "ast_alias list"
  | ImportFrom "string option" "ast_alias list" int
  | AliasNode ast_alias
  | Other "node list"

fun iter_child_nodes :: "node \<Rightarrow> node list" where
  "iter_child_nodes (Import names) = map AliasNode names"
| "iter_child_nodes (ImportFrom module names level) = map AliasNode names"
| "iter_child_nodes (AliasNode a) = []"
| "iter_child_nodes (Other children) = children"

fun node_count :: "node \<Rightarrow> nat" where
  "node_count (Import names) = Suc (length names)"
| "node_count (ImportFrom module names level) = Suc (length names)"
| "node_count (AliasNode a) = 1"
| "node_count (Other children) = Suc (sum_list (map node_count children))"

text \<open>
  \<open>ast.walk\<close>: a queue that starts with the root; each step takes the first node, puts its
  children at the end and yields the node.
\<close>

function walk_todo :: "node list \<Rightarrow> node list" where
  "walk_todo [] = []"
| "walk_todo (n # todo) = n # walk_todo (todo @ iter_child_nodes n)"
  by pat_completeness auto
termination
proof (relation "measure (\<lambda>todo. sum_list (map node_count todo))")
  show "wf (measure (\<lambda>todo. sum_list (map node_count todo)))"
    by simp
next
  fix n :: node and todo :: "node list"
  have "sum_list (map node_count (iter_child_nodes n)) < node_count n"
    by (cases n) (simp_all add: comp_def sum_list_triv)
  then show "(todo @ iter_child_nodes n, n # todo) \<in> measure (\<lambda>todo. sum_list (map node_count todo))"
    by simp
qed

definition walk :: "node \<Rightarrow> node list" where
  "walk tree = walk_todo [tree]"

subsection \<open>Strings and lists of Python\<close>

text \<open>\<open>s.split(sep)\<close> for a separator of one character; \<open>cur\<close> is the piece being read.\<close>

fun split_from :: "string \<Rightarrow> char \<Rightarrow> string \<Rightarrow> string list" where
  "split_from cur sep [] = [rev cur]"
| "split_from cur sep (c # cs) =
     (if c = sep then rev cur # split_from [] sep cs else split_from (c # cur) sep cs)"

definition str_split :: "string \<Rightarrow> char \<Rightarrow> string list" where
  "str_split s sep = split_from [] sep s"

text \<open>\<open>xs[0]\<close> raises \<open>IndexError\<close> on the empty list.\<close>

fun index0 :: "'a list \<Rightarrow> py_exception + 'a" where
  "index0 [] = Inl (Raised IndexError ''list index out of range'')"
| "index0 (x # xs) = Inr x"

text \<open>The expression \<open>X.split('.')[0]\<close>.\<close>

definition top_level :: "string \<Rightarrow> py_exception + string" where
  "top_level s = index0 (str_split s CHR ''.'')"

text \<open>
  \<open>list(set(xs))\<close>: the distinct elements of \<open>xs\<close>, in the order in which the set iterates.
  Python leaves that order open (it follows the hashes of the strings, which change from
  one process to the next), so a key \<open>hash_order\<close> decides it here; every arrangement of
  the distinct elements is the result for some key.
\<close>

definition list_of_set :: "(string \<Rightarrow> nat) \<Rightarrow> string list \<Rightarrow> string list" where
  "list_of_set hash_order xs = sort_key hash_order (remdups xs)"

subsection \<open>The function\<close>

text \<open>\<open>for alias in names: import_names.append(alias.name.split('.')[0])\<close>\<close>

fun append_alias_names :: "ast_alias list \<Rightarrow> string list \<Rightarrow> py_exception + string list" where
  "append_alias_names [] import_names = Inr import_names"
| "append_alias_names (a # names) import_names =
     (case top_level (name a) of
        Inl e \<Rightarrow> Inl e
      | Inr s \<Rightarrow> append_alias_names names (import_names @ [s]))"

text \<open>
  The body of the loop over the nodes. \<open>if node.module:\<close> holds for a string that is not
  empty; for \<open>None\<close> and for the empty string the \<open>else\<close> branch runs.
\<close>

fun visit :: "node \<Rightarrow> string list \<Rightarrow> py_exception + string list" where
  "visit (Import names) import_names = append_alias_names names import_names"
| "visit (ImportFrom module names level) import_names =
     (case module of
        None \<Rightarrow> append_alias_names names import_names
      | Some m \<Rightarrow>
          (if m \<noteq> [] then
             (case top_level m of
                Inl e \<Rightarrow> Inl e
              | Inr s \<Rightarrow> Inr (import_names @ [s]))
           else append_alias_names names import_names))"
| "visit (AliasNode a) import_names = Inr import_names"
| "visit (Other children) import_names = Inr import_names"

fun for_nodes :: "node list \<Rightarrow> string list \<Rightarrow> py_exception + string list" where
  "for_nodes [] import_names = Inr import_names"
| "for_nodes (n # nodes) import_names =
     (case visit n import_names of
        Inl e \<Rightarrow> Inl e
      | Inr import_names' \<Rightarrow> for_nodes nodes import_names')"

text \<open>
  The whole function. \<open>open_read\<close> is \<open>file_path.open(...)\<close> followed by \<open>file.read()\<close>:
  the text of the file or the exception raised; \<open>ast_parse\<close> is \<open>ast.parse\<close>. The
  result is a pair: the exception that leaves the function (\<open>Inl\<close>) or the returned list
  (\<open>Inr\<close>), and the lines written to the standard output. The \<open>print\<close> calls stand in
  the \<open>except\<close> handlers and the loop over the nodes stands after them, in no \<open>try\<close>
  block: an exception raised there leaves the function.
\<close>

definition get_import_name_from_py_file ::
  "stdout \<Rightarrow> (path \<Rightarrow> py_exception + string) \<Rightarrow> (string \<Rightarrow> py_exception + node)
     \<Rightarrow> (string \<Rightarrow> nat) \<Rightarrow> path \<Rightarrow> (py_exception + string list) \<times> log_line list" where
  "get_import_name_from_py_file sys_stdout open_read ast_parse hash_order file_path =
     (case open_read file_path of
        Inl e \<Rightarrow>
          (case print_line sys_stdout (ReadFailed file_path (str e)) [] of
             Inl raised \<Rightarrow> (Inl raised, [])
           | Inr out \<Rightarrow> (Inr [], out))
      | Inr file_content \<Rightarrow>
          (case ast_parse file_content of
             Inl e \<Rightarrow>
               (if exc_class e = SyntaxError then
                  (case print_line sys_stdout (SyntaxErrorSkipped file_path) [] of
                     Inl raised \<Rightarrow> (Inl raised, [])
                   | Inr out \<Rightarrow>
                       (case print_line sys_stdout (ErrorDetail (str e)) out of
                          Inl raised \<Rightarrow> (Inl raised, out)
                        | Inr out' \<Rightarrow> (Inr [], out')))
                else
                  (case print_line sys_stdout (AstParseFailed file_path (str e)) [] of
                     Inl raised \<Rightarrow> (Inl raised, [])
                   | Inr out \<Rightarrow> (Inr [], out)))
           | Inr tree \<Rightarrow>
               (case for_nodes (walk tree) [] of
                  Inl raised \<Rightarrow> (Inl raised, [])
                | Inr import_names \<Rightarrow> (Inr (list_of_set hash_order import_names), []))))"

subsection \<open>Vocabulary of the specification\<close>

text \<open>The first dot-separated segment of a dotted name: what is before the first dot.\<close>

definition first_segment :: "string \<Rightarrow> string" where
  "first_segment s = takeWhile (\<lambda>c. c \<noteq> CHR ''.'') s"

text \<open>
  The nodes of a tree: the node itself and everything below it, by recursion on the tree.
  This is what "every node of the tree" means in the specification; it is defined without
  the queue of \<open>walk\<close>.
\<close>

fun nodes_of :: "node \<Rightarrow> node list" where
  "nodes_of (Import names) = Import names # map AliasNode names"
| "nodes_of (ImportFrom module names level) = ImportFrom module names level # map AliasNode names"
| "nodes_of (AliasNode a) = [AliasNode a]"
| "nodes_of (Other children) = Other children # concat (map nodes_of children)"

text \<open>What one node contributes to the collected names, according to the specification.\<close>

definition alias_segments :: "ast_alias list \<Rightarrow> string list" where
  "alias_segments names = map (\<lambda>a. first_segment (name a)) names"

fun contribution :: "node \<Rightarrow> string list" where
  "contribution (Import names) = alias_segments names"
| "contribution (ImportFrom module names level) =
     (case module of
        None \<Rightarrow> alias_segments names
      | Some m \<Rightarrow> if m \<noteq> [] then [first_segment m] else alias_segments names)"
| "contribution (AliasNode a) = []"
| "contribution (Other children) = []"

text \<open>The import statements among the nodes.\<close>

fun is_import_stmt :: "node \<Rightarrow> bool" where
  "is_import_stmt (Import names) = True"
| "is_import_stmt (ImportFrom module names level) = True"
| "is_import_stmt (AliasNode a) = False"
| "is_import_stmt (Other children) = False"











text \<open>
  The names written in an import statement, before any \<open>as\<close>: the module of a
  \<open>from\<close> import and the names of the aliases. The aliases given with \<open>as\<close>.
\<close>

fun written_names :: "node \<Rightarrow> string list" where
  "written_names (Import names) = map name names"
| "written_names (ImportFrom module names level) =
     (case module of None \<Rightarrow> [] | Some m \<Rightarrow> [m]) @ map name names"
| "written_names (AliasNode a) = []"
| "written_names (Other children) = []"

fun as_names :: "node \<Rightarrow> string list" where
  "as_names (Import names) = concat (map (\<lambda>a. case asname a of None \<Rightarrow> [] | Some z \<Rightarrow> [z]) names)"
| "as_names (ImportFrom module names level) =
     concat (map (\<lambda>a. case asname a of None \<Rightarrow> [] | Some z \<Rightarrow> [z]) names)"
| "as_names (AliasNode a) = []"
| "as_names (Other children) = []"

text \<open>The same tree with other aliases: \<open>g\<close> gives each alias node its new \<open>asname\<close>.\<close>

definition with_asname :: "(ast_alias \<Rightarrow> string option) \<Rightarrow> ast_alias \<Rightarrow> ast_alias" where
  "with_asname g a = Alias (name a) (g a)"

fun with_asnames :: "(ast_alias \<Rightarrow> string option) \<Rightarrow> node \<Rightarrow> node" where
  "with_asnames g (Import names) = Import (map (with_asname g) names)"
| "with_asnames g (ImportFrom module names level) =
     ImportFrom module (map (with_asname g) names) level"
| "with_asnames g (AliasNode a) = AliasNode (with_asname g a)"
| "with_asnames g (Other children) = Other (map (with_asnames g) children)"

text \<open>
  Environments for examples: a file system in which the file reads as \<open>content\<close>, or in
  which opening it raises \<open>e\<close>; a parser that answers \<open>tree\<close>, or raises \<open>e\<close>; a stream
  that takes every line, one that raises \<open>e\<close> on every line, and one that raises \<open>e\<close> on
  the line \<open>  -> ...\<close> only.
\<close>

definition accepting :: "log_line \<Rightarrow> py_exception option" where
  "accepting line = None"

definition rejecting :: "py_exception \<Rightarrow> log_line \<Rightarrow> py_exception option" where
  "rejecting e line = Some e"


definition reads_as :: "string \<Rightarrow> path \<Rightarrow> py_exception + string" where
  "reads_as content p = Inr content"

definition open_raises :: "py_exception \<Rightarrow> path \<Rightarrow> py_exception + string" where
  "open_raises e p = Inl e"

definition parses_to :: "node \<Rightarrow> string \<Rightarrow> py_exception + node" where
  "parses_to tree s = Inr tree"

definition parse_raises :: "py_exception \<Rightarrow> string \<Rightarrow> py_exception + node" where
  "parse_raises e s = Inl e"

section \<open>What the function does\<close>

subsection \<open>The loop never raises\<close>

lemma index0_split_from:
  "index0 (split_from cur sep s) = Inr (rev cur @ takeWhile (\<lambda>c. c \<noteq> sep) s)"
  by (induction s arbitrary: cur) simp_all

lemma top_level_first_segment: "top_level s = Inr (first_segment s)"
  by (simp add: top_level_def str_split_def first_segment_def index0_split_from)

lemma append_alias_names_returns:
  "append_alias_names names acc = Inr (acc @ alias_segments names)"
  by (induction names arbitrary: acc) (simp_all add: top_level_first_segment alias_segments_def)

lemma visit_returns: "visit n acc = Inr (acc @ contribution n)"
  by (cases n)
    (simp_all add: append_alias_names_returns top_level_first_segment split: option.splits)

lemma for_nodes_returns: "for_nodes nodes acc = Inr (acc @ concat (map contribution nodes))"
  by (induction nodes arbitrary: acc) (simp_all add: visit_returns)

lemma set_list_of_set: "set (list_of_set h xs) = set xs"
  by (simp add: list_of_set_def)

lemma distinct_list_of_set: "distinct (list_of_set h xs)"
  by (simp add: list_of_set_def)

lemma parsed_returns:
  assumes "open_read p = Inr c" and "ast_parse c = Inr tree"
  shows "get_import_name_from_py_file out open_read ast_parse h p =
           (Inr (list_of_set h (concat (map contribution (walk tree)))), [])"
  using assms by (simp add: get_import_name_from_py_file_def for_nodes_returns)

subsection \<open>First segments\<close>







subsection \<open>What a node contributes\<close>


lemma alias_segments_written:
  "set (alias_segments names) \<subseteq> first_segment ` set (map name names)"
  by (auto simp: alias_segments_def)

lemma alias_segments_with_asname:
  "alias_segments (map (with_asname g) names) = alias_segments names"
  by (simp add: alias_segments_def with_asname_def comp_def)



lemma contribution_written:
  "set (contribution n) \<subseteq> first_segment ` set (written_names n)"
proof (cases n)
  case (Import names)
  then show ?thesis using alias_segments_written [of names] by simp
next
  case (ImportFrom module names level)
  then show ?thesis using alias_segments_written [of names]
    by (cases module) auto
qed simp_all

lemma contribution_non_import: "\<not> is_import_stmt n \<Longrightarrow> contribution n = []"
  by (cases n) simp_all




subsection \<open>Collections with one element\<close>



subsection \<open>Aliases\<close>

lemma iter_child_nodes_with_asnames:
  "iter_child_nodes (with_asnames g n) = map (with_asnames g) (iter_child_nodes n)"
  by (cases n) simp_all

lemma walk_todo_with_asnames:
  "walk_todo (map (with_asnames g) todo) = map (with_asnames g) (walk_todo todo)"
  by (induction todo rule: walk_todo.induct) (simp_all add: iter_child_nodes_with_asnames)

lemma walk_with_asnames: "walk (with_asnames g tree) = map (with_asnames g) (walk tree)"
  using walk_todo_with_asnames [of g "[tree]"] by (simp add: walk_def)

lemma contribution_with_asnames: "contribution (with_asnames g n) = contribution n"
  by (cases n) (simp_all add: alias_segments_with_asname split: option.splits)

lemma collected_with_asnames:
  "concat (map contribution (walk (with_asnames g tree))) = concat (map contribution (walk tree))"
  by (simp add: walk_with_asnames comp_def contribution_with_asnames)

subsection \<open>Where a collected name comes from\<close>

lemma collected_member:
  "n \<in> set nodes \<Longrightarrow> x \<in> set (contribution n) \<Longrightarrow> x \<in> set (concat (map contribution nodes))"
  by auto

lemma collected_origin:
  assumes "x \<in> set (concat (map contribution nodes))"
  obtains n where "n \<in> set nodes" and "is_import_stmt n" and "x \<in> set (contribution n)"
proof -
  from assms obtain n where n: "n \<in> set nodes" "x \<in> set (contribution n)" by auto
  then have "is_import_stmt n"
    by (cases "is_import_stmt n") (simp_all add: contribution_non_import)
  with n that show thesis by blast
qed

subsection \<open>The walk reaches every node\<close>

lemma nodes_of_children:
  "set (nodes_of n) = insert n (\<Union>c\<in>set (iter_child_nodes n). set (nodes_of c))"
  by (cases n) auto

lemma walk_todo_reaches:
  "set (walk_todo todo) = (\<Union>n\<in>set todo. set (nodes_of n))"
proof (induction todo rule: walk_todo.induct)
  case 1
  show ?case by simp
next
  case (2 n todo)
  have "set (walk_todo (n # todo)) = insert n (set (walk_todo (todo @ iter_child_nodes n)))"
    by simp
  also have "\<dots> = insert n ((\<Union>m\<in>set todo. set (nodes_of m))
      \<union> (\<Union>c\<in>set (iter_child_nodes n). set (nodes_of c)))"
    by (simp add: "2.IH")
  also have "\<dots> = set (nodes_of n) \<union> (\<Union>m\<in>set todo. set (nodes_of m))"
    by (auto simp: nodes_of_children [of n])
  finally show ?case by simp
qed

lemma walk_reaches_every_node: "set (walk tree) = set (nodes_of tree)"
  by (simp add: walk_def walk_todo_reaches nodes_of_children [of tree])

subsection \<open>Identifiers\<close>




section \<open>The claims of the specification\<close>

text \<open>The definitions that evaluate the function in an example.\<close>

lemmas example_defs =
  get_import_name_from_py_file_def reads_as_def parses_to_def open_raises_def parse_raises_def
  accepting_def rejecting_def walk_def top_level_def str_split_def list_of_set_def







text \<open>
  C3. Whenever the function returns, the returned list has no duplicates, for every input;
  and it returns unless \<open>print\<close> raised in a handler. The example is the file of the
  specification: \<open>import a\<close>, \<open>import a.b\<close> and \<open>from a import x\<close> give one \<open>a\<close>.
\<close>

theorem no_duplicates:
  "(\<exists>names out. get_import_name_from_py_file so open_read ast_parse h p = (Inr names, out)
       \<and> distinct names)
   \<or> (\<exists>e out w l. get_import_name_from_py_file so open_read ast_parse h p = (Inl e, out)
       \<and> so = Stream w \<and> w l = Some e)"
proof (cases "fst (get_import_name_from_py_file so open_read ast_parse h p)")
  case (Inl e)
  then obtain out where r: "get_import_name_from_py_file so open_read ast_parse h p = (Inl e, out)"
    by (cases "get_import_name_from_py_file so open_read ast_parse h p") simp
  have "\<exists>w l. so = Stream w \<and> w l = Some e"
  proof (cases so)
    case NoStdout
    with r show ?thesis
      by (auto simp: get_import_name_from_py_file_def for_nodes_returns
          split: sum.splits if_splits)
  next
    case (Stream w)
    with r show ?thesis
      by (auto simp: get_import_name_from_py_file_def for_nodes_returns
          split: sum.splits if_splits option.splits)
  qed
  with r show ?thesis by blast
next
  case (Inr names)
  then obtain out where r: "get_import_name_from_py_file so open_read ast_parse h p = (Inr names, out)"
    by (cases "get_import_name_from_py_file so open_read ast_parse h p") simp
  then have "distinct names"
    by (auto simp: get_import_name_from_py_file_def for_nodes_returns distinct_list_of_set
        split: sum.splits if_splits)
  with r show ?thesis by blast
qed

theorem no_duplicates_witness:
  "get_import_name_from_py_file NoStdout (reads_as ''import a; import a.b; from a import x'')
      (parses_to (Other [Import [Alias ''a'' None], Import [Alias ''a.b'' None],
         ImportFrom (Some ''a'') [Alias ''x'' None] 0])) length ''m.py''
     = (Inr [''a''], [])"
  using no_duplicates [of NoStdout "reads_as ''import a; import a.b; from a import x''"
      "parses_to (Other [Import [Alias ''a'' None], Import [Alias ''a.b'' None],
         ImportFrom (Some ''a'') [Alias ''x'' None] 0])" length "''m.py''"]
  by (simp add: example_defs)










text \<open>
  C8. Two calls on the same file, under the same file system, parser and standard output,
  end the same way, in whatever order each call's set iterates: both return lists with
  the same elements and write the same lines, or \<open>print\<close> raises the same exception in
  both. The function keeps no state: its result depends on its arguments only.
\<close>

theorem same_elements_twice:
  "(\<exists>names1 names2 out.
        get_import_name_from_py_file so open_read ast_parse h1 p = (Inr names1, out)
      \<and> get_import_name_from_py_file so open_read ast_parse h2 p = (Inr names2, out)
      \<and> set names1 = set names2 \<and> mset names1 = mset names2)
   \<or> (\<exists>e out w l.
        get_import_name_from_py_file so open_read ast_parse h1 p = (Inl e, out)
      \<and> get_import_name_from_py_file so open_read ast_parse h2 p = (Inl e, out)
      \<and> so = Stream w \<and> w l = Some e)"
proof (cases "open_read p")
  case read: (Inr c)
  show ?thesis
  proof (cases "ast_parse c")
    case (Inr tree)
    with read show ?thesis
      by (simp add: get_import_name_from_py_file_def for_nodes_returns list_of_set_def)
  next
    case (Inl e)
    with read show ?thesis
      by (cases so) (auto simp: get_import_name_from_py_file_def split: option.splits)
  qed
next
  case (Inl e)
  then show ?thesis
    by (cases so) (auto simp: get_import_name_from_py_file_def split: option.splits)
qed

theorem same_elements_twice_witness:
  "get_import_name_from_py_file NoStdout (reads_as ''import ab; import c'')
      (parses_to (Other [Import [Alias ''ab'' None], Import [Alias ''c'' None]]))
      length ''m.py''
     = (Inr [''c'', ''ab''], [])
   \<and> get_import_name_from_py_file NoStdout (reads_as ''import ab; import c'')
      (parses_to (Other [Import [Alias ''ab'' None], Import [Alias ''c'' None]]))
      (\<lambda>s. 2 - length s) ''m.py''
     = (Inr [''ab'', ''c''], [])
   \<and> mset [''c'', ''ab''] = mset [''ab'', ''c'']"
  using same_elements_twice [of NoStdout "reads_as ''import ab; import c''"
      "parses_to (Other [Import [Alias ''ab'' None], Import [Alias ''c'' None]])"
      length "''m.py''" "\<lambda>s. 2 - length s"]
  by (simp add: example_defs)

text \<open>
  C9. A \<open>from X import ...\<close> statement with a module \<open>X\<close>, anywhere in the tree, contributes
  the first segment of \<open>X\<close> at every level: the loop appends that segment and the level
  plays no part. So \<open>from .sibling import x\<close> gives \<open>sibling\<close>.
\<close>

theorem named_module_any_level:
  assumes "open_read p = Inr c" and "ast_parse c = Inr tree"
    and "ImportFrom (Some X) als level \<in> set (nodes_of tree)" and "X \<noteq> []"
  shows "\<exists>names. get_import_name_from_py_file so open_read ast_parse h p = (Inr names, [])
      \<and> first_segment X \<in> set names
      \<and> visit (ImportFrom (Some X) als level) acc = Inr (acc @ [first_segment X])
      \<and> visit (ImportFrom (Some X) als level') acc = visit (ImportFrom (Some X) als level) acc"
proof (intro exI conjI)
  let ?xs = "concat (map contribution (walk tree))"
  show "get_import_name_from_py_file so open_read ast_parse h p = (Inr (list_of_set h ?xs), [])"
    using assms(1,2) by (rule parsed_returns)
  have "first_segment X \<in> set (contribution (ImportFrom (Some X) als level))"
    using assms(4) by simp
  moreover have "ImportFrom (Some X) als level \<in> set (walk tree)"
    using assms(3) by (simp add: walk_reaches_every_node)
  ultimately have "first_segment X \<in> set ?xs"
    by (blast intro: collected_member)
  then show "first_segment X \<in> set (list_of_set h ?xs)"
    by (simp only: set_list_of_set)
  show "visit (ImportFrom (Some X) als level) acc = Inr (acc @ [first_segment X])"
    using assms(4) by (simp add: top_level_first_segment)
  show "visit (ImportFrom (Some X) als level') acc = visit (ImportFrom (Some X) als level) acc"
    by simp
qed

theorem named_module_any_level_witness:
  "reads_as ''def f(): from .sibling import x'' ''m.py'' = Inr ''def f(): from .sibling import x''
   \<and> parses_to (Other [Other [Other [], ImportFrom (Some ''sibling'') [Alias ''x'' None] 1]])
        ''def f(): from .sibling import x''
      = Inr (Other [Other [Other [], ImportFrom (Some ''sibling'') [Alias ''x'' None] 1]])
   \<and> ImportFrom (Some ''sibling'') [Alias ''x'' None] 1
        \<in> set (nodes_of (Other [Other [Other [], ImportFrom (Some ''sibling'') [Alias ''x'' None] 1]]))
   \<and> first_segment ''sibling'' = ''sibling''
   \<and> get_import_name_from_py_file NoStdout (reads_as ''def f(): from .sibling import x'')
        (parses_to (Other [Other [Other [], ImportFrom (Some ''sibling'') [Alias ''x'' None] 1]]))
        length ''m.py''
      = (Inr [''sibling''], [])"
  using named_module_any_level [of "reads_as ''def f(): from .sibling import x''" "''m.py''"
      "''def f(): from .sibling import x''"
      "parses_to (Other [Other [Other [], ImportFrom (Some ''sibling'') [Alias ''x'' None] 1]])"
      "Other [Other [Other [], ImportFrom (Some ''sibling'') [Alias ''x'' None] 1]]" "''sibling''"
      "[Alias ''x'' None]" 1 NoStdout length "[]" 0]
  by (simp add: example_defs first_segment_def)

text \<open>
  C10, as amended. The function never reads \<open>asname\<close>: its result is the same whatever
  the aliases of the tree are, and every returned name is the first segment of a name
  written before \<open>as\<close>, of a module or of an imported name.
\<close>

theorem aliases_do_not_contribute:
  "get_import_name_from_py_file so open_read
       (\<lambda>s. map_sum id (with_asnames g) (ast_parse s)) h p
     = get_import_name_from_py_file so open_read ast_parse h p
   \<and> (open_read p = Inr c \<and> ast_parse c = Inr tree \<longrightarrow>
        (\<exists>names. get_import_name_from_py_file so open_read ast_parse h p = (Inr names, [])
           \<and> (\<forall>z\<in>set names. \<exists>n\<in>set (walk tree). z \<in> first_segment ` set (written_names n))))"
proof (intro conjI impI)
  show "get_import_name_from_py_file so open_read
       (\<lambda>s. map_sum id (with_asnames g) (ast_parse s)) h p
     = get_import_name_from_py_file so open_read ast_parse h p"
  proof (cases "open_read p")
    case (Inl e)
    then show ?thesis by (simp add: get_import_name_from_py_file_def)
  next
    case (Inr c)
    show ?thesis
    proof (cases "ast_parse c")
      case (Inl e)
      with Inr show ?thesis by (simp add: get_import_name_from_py_file_def)
    next
      case tree: (Inr tree)
      with Inr show ?thesis
        by (simp add: get_import_name_from_py_file_def for_nodes_returns collected_with_asnames)
    qed
  qed
next
  assume a: "open_read p = Inr c \<and> ast_parse c = Inr tree"
  let ?xs = "concat (map contribution (walk tree))"
  have r: "get_import_name_from_py_file so open_read ast_parse h p = (Inr (list_of_set h ?xs), [])"
    using a by (simp add: parsed_returns)
  have "\<forall>z\<in>set (list_of_set h ?xs). \<exists>n\<in>set (walk tree). z \<in> first_segment ` set (written_names n)"
  proof
    fix z assume "z \<in> set (list_of_set h ?xs)"
    then have "z \<in> set ?xs" by (simp only: set_list_of_set)
    then obtain n where "n \<in> set (walk tree)" and "z \<in> set (contribution n)"
      by (rule collected_origin)
    then show "\<exists>n\<in>set (walk tree). z \<in> first_segment ` set (written_names n)"
      using contribution_written [of n] by blast
  qed
  with r show "\<exists>names. get_import_name_from_py_file so open_read ast_parse h p = (Inr names, [])
           \<and> (\<forall>z\<in>set names. \<exists>n\<in>set (walk tree). z \<in> first_segment ` set (written_names n))"
    by blast
qed

theorem aliases_do_not_contribute_witness:
  "reads_as ''import a.b as z'' ''m.py'' = Inr ''import a.b as z''
   \<and> parses_to (Other [Import [Alias ''a.b'' (Some ''z'')]]) ''import a.b as z''
      = Inr (Other [Import [Alias ''a.b'' (Some ''z'')]])
   \<and> get_import_name_from_py_file NoStdout (reads_as ''import a.b as z'')
        (parses_to (Other [Import [Alias ''a.b'' (Some ''z'')]])) length ''m.py''
      = (Inr [''a''], [])
   \<and> get_import_name_from_py_file NoStdout (reads_as ''import a.b as z'')
        (parses_to (Other [Import [Alias ''a.b'' None]])) length ''m.py''
      = (Inr [''a''], [])
   \<and> written_names (Import [Alias ''a.b'' (Some ''z'')]) = [''a.b'']
   \<and> ''z'' \<notin> set [''a'']"
  using aliases_do_not_contribute [of NoStdout "reads_as ''import a.b as z''" "\<lambda>a. None"
      "parses_to (Other [Import [Alias ''a.b'' (Some ''z'')]])" length "''m.py''"
      "''import a.b as z''" "Other [Import [Alias ''a.b'' (Some ''z'')]]"]
  by (simp add: example_defs with_asname_def first_segment_def)

text \<open>
  The input at which C10 fails as stated: \<open>from . import utils as utils\<close> returns \<open>utils\<close>,
  which is the alias of the statement.
\<close>

theorem alias_in_result_counterexample:
  "get_import_name_from_py_file NoStdout (reads_as ''from . import utils as utils'')
      (parses_to (Other [ImportFrom None [Alias ''utils'' (Some ''utils'')] 1])) length ''m.py''
     = (Inr [''utils''], [])
   \<and> as_names (ImportFrom None [Alias ''utils'' (Some ''utils'')] 1) = [''utils'']"
  by (simp add: example_defs)

end
